theory Spec2Isabelle
  imports Main "HOL-Library.Word"
begin

unbundle bit_operations_syntax

section \<open>Python primitives used by the inspector\<close>

text \<open>
  A \<open>bytes\<close> object is a list of 8-bit words. Python integers are unbounded: coordinates
  (which may be negative) are \<open>int\<close>, file positions and decoded table entries are \<open>nat\<close>.
\<close>

type_synonym byte = "8 word"

text \<open>\<open>xs[a:b]\<close> for \<open>0 \<le> a \<le> b\<close>.\<close>

definition py_slice :: "'a list \<Rightarrow> nat \<Rightarrow> nat \<Rightarrow> 'a list" where
  "py_slice xs a b = take (b - a) (drop a xs)"

text \<open>\<open>struct.unpack(">I", bs)[0]\<close>: the big-endian value of a byte string.\<close>

definition unpack_be32 :: "byte list \<Rightarrow> nat" where
  "unpack_be32 bs = foldl (\<lambda>acc b. acc * 256 + unat b) 0 bs"

text \<open>\<open>str(n)\<close> for a non-negative integer, as an f-string renders it.\<close>

fun str_nat :: "nat \<Rightarrow> string" where
  "str_nat n = (if n < 10 then [''0123456789'' ! n]
                else str_nat (n div 10) @ [''0123456789'' ! (n mod 10)])"

declare str_nat.simps [simp del]

text \<open>
  \<open>xs.find(sub)\<close>: the lowest index where \<open>sub\<close> occurs in \<open>xs\<close>; Python's \<open>-1\<close> is \<open>None\<close>.
\<close>

fun find_bytes :: "byte list \<Rightarrow> byte list \<Rightarrow> nat option" where
  "find_bytes sub [] = (if sub = [] then Some 0 else None)"
| "find_bytes sub (b # bs) =
     (if take (length sub) (b # bs) = sub then Some 0
      else map_option Suc (find_bytes sub bs))"

section \<open>Table index\<close>

text \<open>\<open>chunk_index(cx, cz)\<close>; \<open>&\<close> on Python integers is two's complement \<open>AND\<close>.\<close>

definition chunk_index :: "int \<Rightarrow> int \<Rightarrow> int" where
  "chunk_index cx cz = (let rx = cx AND 31; rz = cz AND 31 in rx + rz * 32)"

section \<open>The open region file\<close>

text \<open>
  A file opened with \<open>open(path, "rb")\<close>: its bytes, the current position, and a log of
  the reads performed so far, each entry the position a read started at and the number of
  bytes it returned. The log is what statements about which bytes are touched refer to.
\<close>

record handle =
  content :: "byte list"
  pos :: nat
  reads :: "(nat \<times> nat) list"

definition open_rb :: "byte list \<Rightarrow> handle" where
  "open_rb bs = \<lparr>content = bs, pos = 0, reads = []\<rparr>"

definition f_seek :: "nat \<Rightarrow> handle \<Rightarrow> handle" where
  "f_seek p f = f\<lparr>pos := p\<rparr>"

text \<open>\<open>f.seek(0, os.SEEK_END); f.tell()\<close>\<close>

definition f_seek_end :: "handle \<Rightarrow> nat \<times> handle" where
  "f_seek_end f = (length (content f), f\<lparr>pos := length (content f)\<rparr>)"

text \<open>\<open>f.read(n)\<close> for \<open>n \<ge> 0\<close>: at most \<open>n\<close> bytes, fewer at end of file.\<close>

definition f_read :: "nat \<Rightarrow> handle \<Rightarrow> byte list \<times> handle" where
  "f_read n f =
     (let bs = take n (drop (pos f) (content f))
      in (bs, f\<lparr>pos := pos f + length bs, reads := reads f @ [(pos f, length bs)]\<rparr>))"

text \<open>
  \<open>f.read(n)\<close> for an arbitrary integer, as the buffered reader behind \<open>open(path, "rb")\<close>
  does it: \<open>-1\<close> reads to the end of the file, anything below raises \<open>ValueError\<close>.
\<close>

definition f_read_int :: "int \<Rightarrow> handle \<Rightarrow> (string + byte list) \<times> handle" where
  "f_read_int n f =
     (if n < - 1 then (Inl ''read length must be non-negative or -1'', f)
      else let (bs, f') = f_read (if n = - 1 then length (content f) else nat n) f
           in (Inr bs, f'))"

section \<open>Allocation table\<close>

definition read_region_header :: "handle \<Rightarrow> (string + nat list) \<times> handle" where
  "read_region_header f =
     (let (header, f') = f_read 8192 (f_seek 0 f)
      in if length header < 8192 then (Inl ''Region header too short'', f')
         else (Inr (map (\<lambda>i. unpack_be32 (py_slice header (i * 4) ((i + 1) * 4))) [0..<1024]), f'))"

section \<open>Extraction result\<close>

text \<open>
  The dictionary \<open>res\<close>. A key that was never set reads as \<open>None\<close>; the dictionary is only
  read through \<open>get\<close> and \<open>in\<close>, and no key other than \<open>compression\<close> is ever stored with
  the value \<open>None\<close>, so an absent key and a \<open>None\<close> value coincide.
\<close>

record result =
  found :: bool
  errors :: "string list"
  offset_sector :: "nat option"
  sector_count :: "nat option"
  length_field :: "nat option"
  compression :: "nat option"
  compressed_bytes :: "byte list option"
  raw_sector_data :: "byte list option"
  decompressed_bytes :: "byte list option"

definition res_init :: result where
  "res_init = \<lparr>found = False, errors = [], offset_sector = None, sector_count = None,
     length_field = None, compression = None, compressed_bytes = None,
     raw_sector_data = None, decompressed_bytes = None\<rparr>"

definition add_error :: "string \<Rightarrow> result \<Rightarrow> result" where
  "add_error e res = res\<lparr>errors := errors res @ [e]\<rparr>"

section \<open>Standard read\<close>

text \<open>
  The inner \<open>try\<close> block of \<open>extract_chunk_raw_from_region\<close>, after \<open>f.seek(start)\<close>. The
  flag says whether the function returned from inside the block. On an in-memory file no
  operation of the block raises, so its \<open>except\<close> branch has no counterpart here.
\<close>

definition standard_read :: "handle \<Rightarrow> result \<Rightarrow> bool \<times> result \<times> handle" where
  "standard_read f res =
     (let (raw_head, f1) = f_read 4 f
      in if length raw_head < 4
         then (False, add_error ''Couldn't read length header (short read).'' res, f1)
         else
           let len = unpack_be32 raw_head;
               (compressed, f2) = f_read len f1
           in if length compressed < max 0 len
              then (False,
                    add_error (''Chunk length '' @ str_nat len @ '' but only read ''
                               @ str_nat (length compressed) @ '' bytes.'') res,
                    f2)
              else
                let comp_type = (if length compressed > 0 then Some (unat (compressed ! 0)) else None);
                    payload = (if length compressed > 1 then drop 1 compressed else [])
                in (True,
                    res\<lparr>found := True, length_field := Some len, compression := comp_type,
                        compressed_bytes := Some payload,
                        raw_sector_data := Some (raw_head @ compressed)\<rparr>,
                    f2))"

section \<open>Recovery scan\<close>

datatype codec = Gzip | Zlib

definition codec_name :: "codec \<Rightarrow> string" where
  "codec_name m = (case m of Gzip \<Rightarrow> ''gzip'' | Zlib \<Rightarrow> ''zlib'')"

definition SCAN_LIMIT :: nat where
  "SCAN_LIMIT = 1024 * 1024 * 4"

text \<open>The \<open>for off in range(...)\<close> loop looking for a zlib header pair.\<close>

fun zlib_loop :: "byte list \<Rightarrow> nat list \<Rightarrow> nat option" where
  "zlib_loop block [] = None"
| "zlib_loop block (off # offs) =
     (if block ! off = 0x78 \<and> off + 1 < length block
         \<and> block ! (off + 1) \<in> {0x9c, 0x01, 0xda}
      then Some off
      else zlib_loop block offs)"

text \<open>The search of the block: position inside the block and the method found.\<close>

definition scan_candidate :: "byte list \<Rightarrow> (nat \<times> codec) option" where
  "scan_candidate block =
     (case find_bytes [0x1f, 0x8b] block of
        Some gz_pos \<Rightarrow> Some (gz_pos, Gzip)
      | None \<Rightarrow>
          (case find_bytes [0x78] block of
             None \<Rightarrow> None
           | Some z_pos \<Rightarrow>
               (case zlib_loop block [z_pos..<min (z_pos + 32) (length block)] of
                  None \<Rightarrow> None
                | Some fnd \<Rightarrow> Some (fnd, Zlib))))"

text \<open>
  The window read and the search: the file offset and method of the candidate, if any, or
  the exception raised by the read.
\<close>

definition recovery_scan ::
  "handle \<Rightarrow> nat \<Rightarrow> (string + (nat \<times> codec) option) \<times> nat \<times> handle" where
  "recovery_scan f start =
     (let scan_start = max start 4096;
          (file_end, f1) = f_seek_end f;
          scan_end = min file_end (scan_start + SCAN_LIMIT);
          (r, f2) = f_read_int (int scan_end - int scan_start) (f_seek scan_start f1)
      in case r of
           Inl e \<Rightarrow> (Inl e, file_end, f2)
         | Inr block \<Rightarrow>
             (case scan_candidate block of
                None \<Rightarrow> (Inr None, file_end, f2)
              | Some (p, cand_type) \<Rightarrow> (Inr (Some (scan_start + p, cand_type)), file_end, f2)))"

text \<open>
  The rest of the scan branch. The first component is the message of an exception that
  leaves the \<open>with\<close> block, if one does. The decompressors are \<open>gzip.decompress\<close> and
  \<open>zlib.decompress\<close>, \<open>Inl\<close> being the message of the exception they raise.
\<close>

definition recovery ::
  "(byte list \<Rightarrow> string + byte list) \<Rightarrow> (byte list \<Rightarrow> string + byte list) \<Rightarrow>
   handle \<Rightarrow> nat \<Rightarrow> result \<Rightarrow> string option \<times> result \<times> handle" where
  "recovery gz zl f start res =
     (case recovery_scan f start of
        (Inl e, file_end, f2) \<Rightarrow> (Some e, res, f2)
      | (Inr None, file_end, f2) \<Rightarrow>
          (None, add_error ''No gzip/zlib header found during scan.'' res, f2)
      | (Inr (Some (candidate_pos, cand_type)), file_end, f2) \<Rightarrow>
          (let res1 = add_error
                 (''Could not read by header; found candidate compressed stream at file offset ''
                  @ str_nat candidate_pos @ '' ('' @ codec_name cand_type
                  @ ''). Will try to extract.'') res;
               (t, f3) = f_read_int (min (8 * 1024 * 1024) (int file_end - int candidate_pos))
                           (f_seek candidate_pos f2)
           in case t of
                Inl e \<Rightarrow> (Some e, res1, f3)
              | Inr tail \<Rightarrow>
                  (case (if cand_type = Gzip then gz tail else zl tail) of
                     Inr decompressed \<Rightarrow>
                       (None,
                        res1\<lparr>found := True,
                             compression := Some (if cand_type = Gzip then 1 else 2),
                             compressed_bytes := Some tail,
                             decompressed_bytes := Some decompressed\<rparr>,
                        f3)
                   | Inl e \<Rightarrow>
                       (None, add_error (''Decompression from candidate failed: '' @ e) res1, f3))))"

section \<open>Extraction\<close>

text \<open>The body of the \<open>with\<close> block.\<close>

definition extract_body ::
  "(byte list \<Rightarrow> string + byte list) \<Rightarrow> (byte list \<Rightarrow> string + byte list) \<Rightarrow>
   handle \<Rightarrow> int \<Rightarrow> int \<Rightarrow> string option \<times> result \<times> handle" where
  "extract_body gz zl f cx cz =
     (case read_region_header f of
        (Inl e, f1) \<Rightarrow> (Some e, res_init, f1)
      | (Inr offsets, f1) \<Rightarrow>
          (let idx = chunk_index cx cz;
               entry = offsets ! nat idx;
               off_sector = drop_bit 8 entry;
               sec_count = entry AND 0xFF;
               res = res_init\<lparr>offset_sector := Some off_sector, sector_count := Some sec_count\<rparr>
           in if off_sector = 0
              then (None, add_error ''Chunk not present (offset 0).'' res, f1)
              else
                let start = off_sector * 4096;
                    (total_size, f2) = f_seek_end f1;
                    res1 = (if start \<ge> total_size
                            then add_error (''Offset points beyond file (start='' @ str_nat start
                                            @ '', file='' @ str_nat total_size @ '').'') res
                            else res)
                in case standard_read (f_seek start f2) res1 of
                     (True, res2, f3) \<Rightarrow> (None, res2, f3)
                   | (False, res2, f3) \<Rightarrow> recovery gz zl f3 start res2))"

text \<open>
  \<open>extract_chunk_raw_from_region\<close>. The file system maps a path to the bytes of the file,
  or to the message of the exception \<open>open\<close> raises. Returned with the result is the log of
  the reads made on the file.
\<close>

definition extract_chunk_raw_from_region ::
  "(byte list \<Rightarrow> string + byte list) \<Rightarrow> (byte list \<Rightarrow> string + byte list) \<Rightarrow>
   (string \<Rightarrow> string + byte list) \<Rightarrow> string \<Rightarrow> int \<Rightarrow> int \<Rightarrow> result \<times> (nat \<times> nat) list" where
  "extract_chunk_raw_from_region gz zl fs path cx cz =
     (case fs path of
        Inl e \<Rightarrow> (add_error (''IO error opening region: '' @ e) res_init, [])
      | Inr bs \<Rightarrow>
          (case extract_body gz zl (open_rb bs) cx cz of
             (None, res, f) \<Rightarrow> (res, reads f)
           | (Some e, res, f) \<Rightarrow> (add_error (''IO error opening region: '' @ e) res, reads f)))"

section \<open>Decompression dispatch and output\<close>

text \<open>
  A decompressor applied to \<open>info.get('compressed_bytes')\<close>, which raises \<open>TypeError\<close> on
  \<open>None\<close>.
\<close>

definition call_decompress ::
  "(byte list \<Rightarrow> string + byte list) \<Rightarrow> byte list option \<Rightarrow> string + byte list" where
  "call_decompress d compressed =
     (case compressed of
        None \<Rightarrow> Inl ''a bytes-like object is required''
      | Some bs \<Rightarrow> d bs)"

text \<open>
  The fallback of \<open>main\<close> after a decompression error: the search of \<open>raw_sector_data\<close> and
  one more decompression, of the slice from the position found to the end.
\<close>

definition rescan_raw ::
  "(byte list \<Rightarrow> string + byte list) \<Rightarrow> (byte list \<Rightarrow> string + byte list) \<Rightarrow>
   byte list option \<Rightarrow> byte list option" where
  "rescan_raw gz zl raw_opt =
     (case raw_opt of
        None \<Rightarrow> None
      | Some raw \<Rightarrow>
          if raw = [] then None
          else
            let candidate =
                  (case find_bytes [0x1f, 0x8b] raw of
                     Some g \<Rightarrow> Some (drop g raw, Gzip)
                   | None \<Rightarrow>
                       (case find_bytes [0x78] raw of
                          Some zpos \<Rightarrow> Some (drop zpos raw, Zlib)
                        | None \<Rightarrow> None))
            in case candidate of
                 None \<Rightarrow> None
               | Some (c, ctype) \<Rightarrow>
                   if c = [] then None
                   else (case (if ctype = Gzip then gz c else zl c) of
                           Inr decompressed \<Rightarrow> Some decompressed
                         | Inl e2 \<Rightarrow> None))"

text \<open>
  The \<open>try\<close>/\<open>except\<close> of \<open>main\<close> that decompresses the bytes found at the expected place:
  the decompressed bytes, or \<open>None\<close> when \<open>decompressed is None\<close> at the end.
\<close>

definition dispatch ::
  "(byte list \<Rightarrow> string + byte list) \<Rightarrow> (byte list \<Rightarrow> string + byte list) \<Rightarrow>
   nat option \<Rightarrow> byte list option \<Rightarrow> byte list option \<Rightarrow> byte list option" where
  "dispatch gz zl comp_type compressed raw =
     (case (if comp_type = Some 1 then call_decompress gz compressed
            else if comp_type = Some 2 then call_decompress zl compressed
            else (case call_decompress gz compressed of
                    Inr d \<Rightarrow> Inr d
                  | Inl e \<Rightarrow> call_decompress zl compressed)) of
        Inr decompressed \<Rightarrow> Some decompressed
      | Inl e \<Rightarrow> rescan_raw gz zl raw)"

text \<open>The command line arguments (\<open>args.mca\<close>, \<open>args.cx\<close>, ...).\<close>

record args =
  arg_mca :: string
  arg_cx :: int
  arg_cz :: int
  arg_out :: string
  arg_raw_nbt_out :: "string option"

text \<open>The dictionary \<open>diag\<close>.\<close>

record diag =
  d_mca :: string
  d_chunk :: "int \<times> int"
  d_found :: bool
  d_offset_sector :: "nat option"
  d_sector_count :: "nat option"
  d_length :: "nat option"
  d_compression_byte :: "nat option"
  d_errors :: "string list"

text \<open>What is written to a file: the JSON report with the parsed tree, or raw bytes.\<close>

datatype 'j written = Report diag 'j | Raw "byte list"

text \<open>\<open>if args.raw_nbt_out:\<close> followed by the write of the decompressed bytes.\<close>

definition write_raw_nbt :: "string option \<Rightarrow> byte list \<Rightarrow> (string \<times> 'j written) list" where
  "write_raw_nbt rno bs =
     (case rno of
        None \<Rightarrow> []
      | Some name \<Rightarrow> if name = [] then [] else [(name, Raw bs)])"

text \<open>
  \<open>main\<close>, as the list of files it writes, in order. \<open>nbt\<close> is
  \<open>nbt_to_json_safe(parse_nbt_bytes(...))\<close>, \<open>Inl\<close> when it raises. Console output is left
  out, and writing a file is taken to succeed.
\<close>

definition main ::
  "(byte list \<Rightarrow> string + byte list) \<Rightarrow> (byte list \<Rightarrow> string + byte list) \<Rightarrow>
   (byte list \<Rightarrow> string + 'j) \<Rightarrow> (string \<Rightarrow> string + byte list) \<Rightarrow> args \<Rightarrow>
   (string \<times> 'j written) list" where
  "main gz zl nbt fs a =
     (let info = fst (extract_chunk_raw_from_region gz zl fs (arg_mca a) (arg_cx a) (arg_cz a));
          dg = \<lparr>d_mca = arg_mca a, d_chunk = (arg_cx a, arg_cz a), d_found = found info,
                d_offset_sector = offset_sector info, d_sector_count = sector_count info,
                d_length = length_field info, d_compression_byte = compression info,
                d_errors = take 10 (errors info)\<rparr>
      in if \<not> found info
         then (case decompressed_bytes info of
                 None \<Rightarrow> []
               | Some d \<Rightarrow>
                   (case nbt d of
                      Inr js \<Rightarrow> [(arg_out a, Report dg js)] @ write_raw_nbt (arg_raw_nbt_out a) d
                    | Inl e \<Rightarrow> write_raw_nbt (arg_raw_nbt_out a) d))
         else
           let compressed = compressed_bytes info;
               comp_type = compression info
           in case dispatch gz zl comp_type compressed (raw_sector_data info) of
                None \<Rightarrow>
                  [(arg_out a @ ''.chunk_compressed.bin'',
                    Raw (case compressed of None \<Rightarrow> [] | Some bs \<Rightarrow> bs))]
              | Some decompressed \<Rightarrow>
                  (case nbt decompressed of
                     Inr js \<Rightarrow>
                       [(arg_out a, Report dg js)] @ write_raw_nbt (arg_raw_nbt_out a) decompressed
                   | Inl e \<Rightarrow>
                       (case arg_raw_nbt_out a of
                          None \<Rightarrow> [(arg_out a @ ''.decompressed.nbt'', Raw decompressed)]
                        | Some name \<Rightarrow>
                            if name = [] then [(arg_out a @ ''.decompressed.nbt'', Raw decompressed)]
                            else [(name, Raw decompressed)])))"

section \<open>Byte patterns and fixtures\<close>

text \<open>
  The patterns the scanner looks for, as predicates on a position of a block: the gzip
  magic \<open>1F 8B\<close>, and a byte \<open>78\<close> followed by one of \<open>9C\<close>, \<open>01\<close>, \<open>DA\<close>.
\<close>

definition gzip_magic_at :: "byte list \<Rightarrow> nat \<Rightarrow> bool" where
  "gzip_magic_at block p \<longleftrightarrow> p + 1 < length block \<and> block ! p = 0x1f \<and> block ! (p + 1) = 0x8b"

definition zlib_pair_at :: "byte list \<Rightarrow> nat \<Rightarrow> bool" where
  "zlib_pair_at block p \<longleftrightarrow>
     p + 1 < length block \<and> block ! p = 0x78 \<and> block ! (p + 1) \<in> {0x9c, 0x01, 0xda}"

definition occurs_at :: "byte list \<Rightarrow> byte list \<Rightarrow> nat \<Rightarrow> bool" where
  "occurs_at sub xs p \<longleftrightarrow> p + length sub \<le> length xs \<and> take (length sub) (drop p xs) = sub"

text \<open>The location record of table slot \<open>i\<close> of a file.\<close>

definition location_record :: "byte list \<Rightarrow> nat \<Rightarrow> nat" where
  "location_record bs i = unpack_be32 (py_slice bs (i * 4) ((i + 1) * 4))"

text \<open>Decompressors for concrete runs: one that rejects everything, one that accepts one input.\<close>

definition never_decompress :: "byte list \<Rightarrow> string + byte list" where
  "never_decompress bs = Inl ''invalid stream''"

definition accept_nine :: "byte list \<Rightarrow> string + byte list" where
  "accept_nine bs = (if bs = [9] then Inr [42] else Inl ''invalid stream'')"

text \<open>A block whose first valid zlib pair is 32 bytes after its first \<open>78\<close>.\<close>

definition late_pair_block :: "byte list" where
  "late_pair_block = 0x78 # replicate 31 0 @ [0x78, 0x9c]"

text \<open>A block with a valid zlib pair before a gzip magic, and one with a near zlib pair.\<close>

definition early_pair_block :: "byte list" where
  "early_pair_block = [0x78, 0x9c, 0x1f, 0x8b]"

definition near_pair_block :: "byte list" where
  "near_pair_block = [0x78, 0x00, 0x78, 0x9c]"

text \<open>
  Region files for concrete runs: a file shorter than the header, a file with an empty
  table, a file whose entry 0 declares length 0, and one whose entry 0 declares 10 bytes
  but holds 1.
\<close>

definition tiny_fs :: "string \<Rightarrow> string + byte list" where
  "tiny_fs p = Inr [0, 0]"

definition empty_table_fs :: "string \<Rightarrow> string + byte list" where
  "empty_table_fs p = Inr (replicate 8192 0)"

definition zero_length_file :: "byte list" where
  "zero_length_file = [0, 0, 2, 1] @ replicate 8188 0 @ [0, 0, 0, 0]"

definition zero_length_fs :: "string \<Rightarrow> string + byte list" where
  "zero_length_fs p = Inr zero_length_file"

definition short_payload_file :: "byte list" where
  "short_payload_file = [0, 0, 2, 1] @ replicate 8188 0 @ [0, 0, 0, 10, 2]"

definition short_payload_fs :: "string \<Rightarrow> string + byte list" where
  "short_payload_fs p = (if p = ''r.0.0.mca'' then Inr short_payload_file
                         else Inl ''No such file or directory'')"

text \<open>An open file with a gzip magic at the start of its second sector.\<close>

definition gzip_in_sector_one :: handle where
  "gzip_in_sector_one = \<lparr>content = replicate 4096 0 @ [0x1f, 0x8b], pos = 0, reads = []\<rparr>"

section \<open>Properties of the table index\<close>

lemma and_31_eq_mod: "(x::int) AND 31 = x mod 32"
proof -
  have "x AND mask 5 = x mod 2 ^ 5"
    by (simp only: take_bit_eq_mask [symmetric] take_bit_eq_mod)
  then show ?thesis
    by (simp add: mask_eq_exp_minus_1)
qed

lemma chunk_index_mod: "chunk_index cx cz = cx mod 32 + (cz mod 32) * 32"
  by (simp add: chunk_index_def and_31_eq_mod)

text \<open>
  C7: the table index is periodic with period 32 in both coordinates, and it is the
  non-negative remainder formula \<open>(x mod 32) + (z mod 32) * 32\<close>, for all signed
  coordinates and all integer multiples.
\<close>

theorem chunk_index_periodic:
  "chunk_index (x + 32 * k) (z + 32 * m) = chunk_index x z
   \<and> chunk_index x z = x mod 32 + (z mod 32) * 32"
  by (simp add: chunk_index_mod)

text \<open>
  C9: for all signed coordinates, negative ones included, \<open>chunk_index\<close> lies in
  \<open>[0, 1023]\<close>, and it is a valid index of any table \<open>read_region_header\<close> returns.
\<close>

theorem chunk_index_in_table:
  "0 \<le> chunk_index cx cz \<and> chunk_index cx cz \<le> 1023
   \<and> (fst (read_region_header f) = Inr offsets \<longrightarrow> nat (chunk_index cx cz) < length offsets)"
proof -
  have a: "0 \<le> chunk_index cx cz" and b: "chunk_index cx cz \<le> 1023"
    by (simp_all add: chunk_index_mod)
  have "length offsets = 1024" if "fst (read_region_header f) = Inr offsets"
    using that by (auto simp: read_region_header_def Let_def split: prod.splits if_splits)
  with a b show ?thesis by auto
qed


theorem chunk_index_in_table_witness:
  "\<exists>offsets. fst (read_region_header (open_rb (replicate 8192 0))) = Inr offsets
     \<and> nat (chunk_index (- 1) (- 33)) < length offsets"
proof -
  have "\<exists>offsets. fst (read_region_header (open_rb (replicate 8192 0))) = Inr offsets"
    by (simp add: read_region_header_def f_read_def f_seek_def open_rb_def Let_def)
  then obtain offsets where h: "fst (read_region_header (open_rb (replicate 8192 0))) = Inr offsets"
    by blast
  from chunk_index_in_table [of "- 1" "- 33" "open_rb (replicate 8192 0)" offsets] h
  show ?thesis by blast
qed

section \<open>Properties of the byte search\<close>

lemma occurs_at_Cons_Suc: "occurs_at sub (x # xs) (Suc p) = occurs_at sub xs p"
  by (simp add: occurs_at_def)

lemma occurs_at_0: "occurs_at sub xs 0 \<longleftrightarrow> take (length sub) xs = sub"
proof -
  have "length sub \<le> length xs" if "take (length sub) xs = sub"
  proof -
    from that have "length (take (length sub) xs) = length sub" by simp
    then show ?thesis by simp
  qed
  then show ?thesis by (auto simp: occurs_at_def)
qed

lemma find_bytes_Some:
  "find_bytes sub xs = Some p \<Longrightarrow> occurs_at sub xs p \<and> (\<forall>q<p. \<not> occurs_at sub xs q)"
proof (induction xs arbitrary: p)
  case Nil
  then show ?case by (auto simp: occurs_at_def split: if_splits)
next
  case (Cons x xs)
  show ?case
  proof (cases "take (length sub) (x # xs) = sub")
    case True
    with Cons.prems show ?thesis by (simp add: occurs_at_0)
  next
    case False
    with Cons.prems obtain p' where p': "find_bytes sub xs = Some p'" "p = Suc p'"
      by auto
    from Cons.IH [OF p'(1)] have ih: "occurs_at sub xs p'" "\<forall>q<p'. \<not> occurs_at sub xs q"
      by auto
    have "\<not> occurs_at sub (x # xs) q" if "q < p" for q
    proof (cases q)
      case 0
      with False show ?thesis by (simp add: occurs_at_0)
    next
      case (Suc q')
      with that p'(2) ih(2) show ?thesis by (simp add: occurs_at_Cons_Suc)
    qed
    with ih(1) p'(2) show ?thesis by (simp add: occurs_at_Cons_Suc)
  qed
qed

lemma find_bytes_None:
  "find_bytes sub xs = None \<Longrightarrow> \<not> occurs_at sub xs q"
proof (induction xs arbitrary: q)
  case Nil
  then show ?case by (auto simp: occurs_at_def split: if_splits)
next
  case (Cons x xs)
  from Cons.prems have ne: "take (length sub) (x # xs) \<noteq> sub" and rest: "find_bytes sub xs = None"
    by (auto split: if_splits)
  show ?case
  proof (cases q)
    case 0
    with ne show ?thesis by (simp add: occurs_at_0)
  next
    case (Suc q')
    with Cons.IH [OF rest] show ?thesis by (simp add: occurs_at_Cons_Suc)
  qed
qed

lemma occurs_at_gzip: "occurs_at [0x1f, 0x8b] block p = gzip_magic_at block p"
proof (cases "p + 1 < length block")
  case True
  then have "drop p block = block ! p # block ! (p + 1) # drop (p + 2) block"
    by (metis Cons_nth_drop_Suc Suc_eq_plus1 Suc_lessD add_2_eq_Suc')
  with True show ?thesis by (auto simp: occurs_at_def gzip_magic_at_def)
next
  case False
  then show ?thesis by (auto simp: occurs_at_def gzip_magic_at_def)
qed

lemma occurs_at_78: "occurs_at [0x78] block p \<longleftrightarrow> p < length block \<and> block ! p = 0x78"
proof (cases "p < length block")
  case True
  then have "drop p block = block ! p # drop (Suc p) block"
    by (simp add: Cons_nth_drop_Suc)
  with True show ?thesis by (auto simp: occurs_at_def)
next
  case False
  then show ?thesis by (auto simp: occurs_at_def)
qed

lemma zlib_loop_cond:
  "zlib_loop block (off # offs) = (if zlib_pair_at block off then Some off else zlib_loop block offs)"
  by (auto simp: zlib_pair_at_def)

lemma zlib_loop_upt:
  "zlib_loop block [a..<b] =
     (if \<exists>p. a \<le> p \<and> p < b \<and> zlib_pair_at block p
      then Some (LEAST p. a \<le> p \<and> zlib_pair_at block p) else None)"
proof (induction "b - a" arbitrary: a)
  case 0
  then show ?case by simp
next
  case (Suc n)
  then have ab: "a < b" and n: "n = b - Suc a" by simp_all
  have upt: "[a..<b] = a # [Suc a..<b]" using ab by (simp add: upt_conv_Cons)
  show ?case
  proof (cases "zlib_pair_at block a")
    case True
    then have "(LEAST p. a \<le> p \<and> zlib_pair_at block p) = a"
      by (intro Least_equality) auto
    with True ab show ?thesis
      unfolding upt zlib_loop_cond by auto
  next
    case False
    have eq: "(a \<le> p \<and> zlib_pair_at block p) = (Suc a \<le> p \<and> zlib_pair_at block p)" for p
      using False by (cases "p = a") auto
    have ex: "(\<exists>p. a \<le> p \<and> p < b \<and> zlib_pair_at block p)
        = (\<exists>p. Suc a \<le> p \<and> p < b \<and> zlib_pair_at block p)"
      using eq by blast
    from Suc.hyps(1) [OF n] False show ?thesis
      unfolding upt zlib_loop_cond ex eq by simp
  qed
qed

section \<open>Properties of the recovery scanner's search\<close>

text \<open>
  C6: whenever the block holds a gzip magic, the search selects a gzip candidate, at the
  first gzip magic of the block, whatever zlib pairs the block holds and wherever they are.
\<close>

theorem scan_candidate_gzip_priority:
  assumes "gzip_magic_at block g"
  shows "\<exists>p\<le>g. scan_candidate block = Some (p, Gzip) \<and> gzip_magic_at block p
           \<and> (\<forall>q<p. \<not> gzip_magic_at block q)"
proof (cases "find_bytes [0x1f, 0x8b] block")
  case None
  from find_bytes_None [OF None, of g] assms show ?thesis
    by (simp add: occurs_at_gzip)
next
  case (Some p)
  from find_bytes_Some [OF Some] have p: "gzip_magic_at block p" "\<forall>q<p. \<not> gzip_magic_at block q"
    by (simp_all add: occurs_at_gzip)
  from p(2) assms have "p \<le> g" by (meson not_le)
  with p Some show ?thesis by (simp add: scan_candidate_def)
qed

theorem scan_candidate_gzip_priority_witness:
  "zlib_pair_at early_pair_block 0 \<and> gzip_magic_at early_pair_block 2
    \<and> (\<exists>p\<le>2. scan_candidate early_pair_block = Some (p, Gzip) \<and> gzip_magic_at early_pair_block p
           \<and> (\<forall>q<p. \<not> gzip_magic_at early_pair_block q))"
  using scan_candidate_gzip_priority [of early_pair_block 2]
  by (simp add: early_pair_block_def zlib_pair_at_def gzip_magic_at_def)


text \<open>
  C2, as stated, fails: in \<open>late_pair_block\<close> there is no gzip magic and a valid zlib pair
  at position 32, yet the search returns no candidate.
\<close>

theorem scan_candidate_late_pair_counterexample:
"0x1f \<notin> set late_pair_block \<and> zlib_pair_at late_pair_block 32
    \<and> scan_candidate late_pair_block = None"
  by code_simp

text \<open>
  C2, amended: in a block without gzip magic whose first \<open>78\<close> is at \<open>z\<close> and whose first
  valid zlib pair is at \<open>p\<close>, the search returns the zlib candidate \<open>p\<close> when \<open>p < z + 32\<close>,
  and no candidate otherwise.
\<close>

theorem scan_candidate_zlib_window:
  assumes nogz: "\<forall>i. \<not> gzip_magic_at block i"
    and z: "z < length block" "block ! z = 0x78" "\<forall>i<z. block ! i \<noteq> 0x78"
    and p: "zlib_pair_at block p" "\<forall>q<p. \<not> zlib_pair_at block q"
  shows "scan_candidate block = (if p < z + 32 then Some (p, Zlib) else None)"
proof -
  have gz: "find_bytes [0x1f, 0x8b] block = None"
  proof (cases "find_bytes [0x1f, 0x8b] block")
    case (Some g)
    from find_bytes_Some [OF Some] nogz show ?thesis by (simp add: occurs_at_gzip)
  qed simp
  have zp: "find_bytes [0x78] block = Some z"
  proof (cases "find_bytes [0x78] block")
    case None
    from find_bytes_None [OF None, of z] z show ?thesis by (simp add: occurs_at_78)
  next
    case (Some z')
    from find_bytes_Some [OF Some] have z': "z' < length block" "block ! z' = 0x78"
      "\<forall>q<z'. \<not> (q < length block \<and> block ! q = 0x78)"
      by (simp_all add: occurs_at_78)
    have "\<not> z' < z" using z(3) z'(2) by auto
    moreover have "\<not> z < z'" using z'(3) z(1,2) by auto
    ultimately show ?thesis using Some by simp
  qed
  have zlep: "z \<le> p"
  proof (rule ccontr)
    assume "\<not> z \<le> p"
    then have "p < z" by simp
    with z(3) p(1) show False by (simp add: zlib_pair_at_def)
  qed
  have plen: "p < length block" using p(1) by (simp add: zlib_pair_at_def)
  have least: "(LEAST q. z \<le> q \<and> zlib_pair_at block q) = p"
    using p zlep by (intro Least_equality) (auto simp: not_less [symmetric])
  have ex: "(\<exists>q. z \<le> q \<and> q < min (z + 32) (length block) \<and> zlib_pair_at block q) = (p < z + 32)"
  proof
    assume "\<exists>q. z \<le> q \<and> q < min (z + 32) (length block) \<and> zlib_pair_at block q"
    then obtain q where q: "q < z + 32" "zlib_pair_at block q" by auto
    from p(2) q(2) have "p \<le> q" by (meson not_le)
    with q(1) show "p < z + 32" by simp
  next
    assume "p < z + 32"
    with zlep plen p(1) show "\<exists>q. z \<le> q \<and> q < min (z + 32) (length block) \<and> zlib_pair_at block q"
      by auto
  qed
  have "zlib_loop block [z..<min (z + 32) (length block)]
      = (if \<exists>q. z \<le> q \<and> q < min (z + 32) (length block) \<and> zlib_pair_at block q
         then Some (LEAST q. z \<le> q \<and> zlib_pair_at block q) else None)"
    by (rule zlib_loop_upt)
  also have "\<dots> = (if p < z + 32 then Some p else None)"
    by (simp only: ex least)
  finally show ?thesis
    by (simp add: scan_candidate_def gz zp)
qed

theorem scan_candidate_zlib_window_witness:
  "(\<forall>i. \<not> gzip_magic_at near_pair_block i)
   \<and> 0 < length near_pair_block \<and> near_pair_block ! 0 = 0x78
   \<and> zlib_pair_at near_pair_block 2
   \<and> \<not> zlib_pair_at near_pair_block 0 \<and> \<not> zlib_pair_at near_pair_block (Suc 0)
   \<and> scan_candidate near_pair_block = Some (2, Zlib)"
proof -
  have nogz: "\<forall>i. \<not> gzip_magic_at near_pair_block i"
  proof
    fix i
    show "\<not> gzip_magic_at near_pair_block i"
    proof
      assume "gzip_magic_at near_pair_block i"
      then have "i < length near_pair_block" and "near_pair_block ! i = 0x1f"
        by (simp_all add: gzip_magic_at_def)
      then have "0x1f \<in> set near_pair_block" by (metis nth_mem)
      then show False by (simp add: near_pair_block_def)
    qed
  qed
  have z: "0 < length near_pair_block" "near_pair_block ! 0 = 0x78"
    "\<forall>i<0. near_pair_block ! i \<noteq> 0x78"
    by (simp_all add: near_pair_block_def)
  have p: "zlib_pair_at near_pair_block 2"
    by (simp add: near_pair_block_def zlib_pair_at_def)
  have q0: "\<not> zlib_pair_at near_pair_block 0" and q1: "\<not> zlib_pair_at near_pair_block (Suc 0)"
    by (simp_all add: near_pair_block_def zlib_pair_at_def)
  have q: "\<forall>q<2. \<not> zlib_pair_at near_pair_block q"
    using q0 q1 less_2_cases by blast
  from scan_candidate_zlib_window [OF nogz z p q] nogz z p q0 q1 show ?thesis by simp
qed

section \<open>Properties of the decompression dispatch\<close>

text \<open>
  C1, as stated, fails: with hint 1, a gzip decompressor that fails and a zlib decompressor
  that would accept the compressed bytes, the dispatch ends without decompressed bytes; the
  other method is never tried on them.
\<close>

theorem dispatch_known_hint_counterexample:
  "never_decompress [9] = Inl ''invalid stream'' \<and> accept_nine [9] = Inr [42]
   \<and> dispatch never_decompress accept_nine (Some 1) (Some [9]) (Some [0, 0, 0, 2, 1, 9]) = None"
  by (simp add: dispatch_def call_decompress_def rescan_raw_def never_decompress_def accept_nine_def)

text \<open>
  C1, amended: with hint 1 (gzip) or 2 (zlib) only the hinted method is tried on the
  compressed bytes, and its failure leads directly to the re-scan of the raw sector block;
  the other method is tried on the compressed bytes only for a tag other than 1 and 2,
  gzip first, then zlib.
\<close>

theorem dispatch_hint_order:
  "(gz c = Inl e \<longrightarrow> dispatch gz zl (Some 1) (Some c) raw = rescan_raw gz zl raw)
   \<and> (zl c = Inl e \<longrightarrow> dispatch gz zl (Some 2) (Some c) raw = rescan_raw gz zl raw)
   \<and> (t \<noteq> Some 1 \<and> t \<noteq> Some 2 \<and> gz c = Inl e \<longrightarrow>
        dispatch gz zl t (Some c) raw
          = (case zl c of Inr d \<Rightarrow> Some d | Inl e' \<Rightarrow> rescan_raw gz zl raw))"
  by (simp add: dispatch_def call_decompress_def)

theorem dispatch_hint_order_witness:
  "never_decompress [9] = Inl ''invalid stream''
   \<and> dispatch never_decompress accept_nine (Some 1) (Some [9]) (Some [0, 0, 0, 2, 1, 9])
       = rescan_raw never_decompress accept_nine (Some [0, 0, 0, 2, 1, 9])
   \<and> dispatch accept_nine never_decompress (Some 2) (Some [9]) (Some [0, 0, 0, 2, 2, 9])
       = rescan_raw accept_nine never_decompress (Some [0, 0, 0, 2, 2, 9])
   \<and> Some 7 \<noteq> Some (1::nat) \<and> Some 7 \<noteq> Some (2::nat)
   \<and> dispatch never_decompress accept_nine (Some 7) (Some [9]) (Some [0, 0, 0, 2, 7, 9]) = Some [42]"
  using dispatch_hint_order [of never_decompress "[9]" "''invalid stream''" accept_nine
      "Some [0, 0, 0, 2, 1, 9]" "Some 7"]
    dispatch_hint_order [of accept_nine "[9]" "''invalid stream''" never_decompress
      "Some [0, 0, 0, 2, 2, 9]" "Some 7"]
    dispatch_hint_order [of never_decompress "[9]" "''invalid stream''" accept_nine
      "Some [0, 0, 0, 2, 7, 9]" "Some 7"]
  by (simp add: never_decompress_def accept_nine_def)

section \<open>Properties of the header and the table lookup\<close>

lemma read_region_header_ok:
  assumes "8192 \<le> length bs"
  shows "read_region_header (open_rb bs)
    = (Inr (map (location_record bs) [0..<1024]), \<lparr>content = bs, pos = 8192, reads = [(0, 8192)]\<rparr>)"
proof -
  have "map (\<lambda>i. unpack_be32 (py_slice (take 8192 bs) (i * 4) ((i + 1) * 4))) [0..<1024]
      = map (location_record bs) [0..<1024]"
    using assms by (intro map_cong refl) (simp add: location_record_def py_slice_def drop_take min_def)
  with assms show ?thesis
    by (simp add: read_region_header_def open_rb_def f_seek_def f_read_def Let_def min_def)
qed

lemma read_region_header_short:
  assumes "length bs < 8192"
  shows "read_region_header (open_rb bs)
    = (Inl ''Region header too short'', \<lparr>content = bs, pos = length bs, reads = [(0, length bs)]\<rparr>)"
  using assms
  by (simp add: read_region_header_def open_rb_def f_seek_def f_read_def Let_def min_def)

lemma chunk_index_bounds: "0 \<le> chunk_index cx cz" "nat (chunk_index cx cz) < 1024"
  by (simp_all add: chunk_index_mod)

lemma table_entry:
  "map (location_record bs) [0..<1024] ! nat (chunk_index cx cz)
     = location_record bs (nat (chunk_index cx cz))"
  using chunk_index_bounds(2) [of cx cz] by simp

lemma unpack_be32_zeros: "unpack_be32 (replicate n 0) = 0"
proof -
  have "foldl (\<lambda>acc b. acc * 256 + unat b) 0 (replicate n (0 :: byte)) = 0"
    by (induction n) simp_all
  then show ?thesis by (simp add: unpack_be32_def)
qed

text \<open>
  C4: on a file shorter than 8192 bytes the extraction ends at the header read: the result
  is not found, carries no offset_sector, no sector_count and no other field, and its only
  diagnostic is the header failure; the header read is the only read.
\<close>

theorem header_truncated_aborts:
  assumes "fs path = Inr bs" "length bs < 8192"
  shows "extract_chunk_raw_from_region gz zl fs path cx cz
    = (res_init\<lparr>errors := [''IO error opening region: Region header too short'']\<rparr>,
       [(0, length bs)])"
  using assms
  by (simp add: extract_chunk_raw_from_region_def extract_body_def read_region_header_short
      add_error_def res_init_def)

theorem header_truncated_aborts_witness:
  "extract_chunk_raw_from_region never_decompress never_decompress tiny_fs ''r.0.0.mca'' 5 7
    = (res_init\<lparr>errors := [''IO error opening region: Region header too short'']\<rparr>, [(0, 2)])"
  using header_truncated_aborts [of tiny_fs "''r.0.0.mca''" "[0, 0]" never_decompress never_decompress 5 7]
  by (simp add: tiny_fs_def)

lemma extract_absent:
  assumes "fs path = Inr bs" "8192 \<le> length bs"
    and "location_record bs (nat (chunk_index cx cz)) = 0"
  shows "extract_chunk_raw_from_region gz zl fs path cx cz
    = (res_init\<lparr>offset_sector := Some 0, sector_count := Some 0,
                 errors := [''Chunk not present (offset 0).'']\<rparr>,
       [(0, 8192)])"
  using assms
  by (simp add: extract_chunk_raw_from_region_def extract_body_def read_region_header_ok
      table_entry add_error_def res_init_def Let_def)

text \<open>
  C8: when the location record at the computed index is 0, the result is not found with
  exactly the diagnostic \<open>Chunk not present (offset 0).\<close>, the only read is the
  8192-byte header read, and \<open>main\<close> writes no file.
\<close>

theorem absent_entry_result:
  assumes "fs path = Inr bs" "8192 \<le> length bs"
    and "location_record bs (nat (chunk_index cx cz)) = 0"
  shows "extract_chunk_raw_from_region gz zl fs path cx cz
      = (res_init\<lparr>offset_sector := Some 0, sector_count := Some 0,
                   errors := [''Chunk not present (offset 0).'']\<rparr>,
         [(0, 8192)])
    \<and> main gz zl nbt fs \<lparr>arg_mca = path, arg_cx = cx, arg_cz = cz, arg_out = out,
         arg_raw_nbt_out = rno\<rparr> = []"
  using assms extract_absent [of fs path bs cx cz gz zl]
  by (simp add: main_def Let_def res_init_def)

theorem absent_entry_result_witness:
  "extract_chunk_raw_from_region never_decompress never_decompress empty_table_fs ''r.0.0.mca'' 3 (- 2)
      = (res_init\<lparr>offset_sector := Some 0, sector_count := Some 0,
                   errors := [''Chunk not present (offset 0).'']\<rparr>,
         [(0, 8192)])
    \<and> main never_decompress never_decompress accept_nine empty_table_fs
         \<lparr>arg_mca = ''r.0.0.mca'', arg_cx = 3, arg_cz = - 2, arg_out = ''chunk_out.json'',
          arg_raw_nbt_out = None\<rparr> = []"
proof -
  have fs: "empty_table_fs ''r.0.0.mca'' = Inr (replicate 8192 0)"
    by (simp add: empty_table_fs_def)
  have len: "8192 \<le> length (replicate 8192 (0 :: byte))" by simp
  have rec: "location_record (replicate 8192 0) (nat (chunk_index 3 (- 2))) = 0"
    by (simp add: location_record_def py_slice_def unpack_be32_zeros)
  show ?thesis
    by (rule absent_entry_result [where fs = empty_table_fs and path = "''r.0.0.mca''"
          and bs = "replicate 8192 0" and cx = 3 and cz = "- 2", OF fs len rec])
qed

section \<open>Properties of the standard read\<close>

lemma extract_body_present:
  assumes "8192 \<le> length bs"
    and "drop_bit 8 (location_record bs (nat (chunk_index cx cz))) \<noteq> 0"
  shows "extract_body gz zl (open_rb bs) cx cz =
    (let entry = location_record bs (nat (chunk_index cx cz));
         start = drop_bit 8 entry * 4096;
         res = res_init\<lparr>offset_sector := Some (drop_bit 8 entry),
                 sector_count := Some (entry AND 0xFF)\<rparr>;
         res1 = (if start \<ge> length bs
                 then add_error (''Offset points beyond file (start='' @ str_nat start
                                 @ '', file='' @ str_nat (length bs) @ '').'') res
                 else res)
     in case standard_read \<lparr>content = bs, pos = start, reads = [(0, 8192)]\<rparr> res1 of
          (True, res2, f3) \<Rightarrow> (None, res2, f3)
        | (False, res2, f3) \<Rightarrow> recovery gz zl f3 start res2)"
  using assms
  by (simp add: extract_body_def read_region_header_ok table_entry Let_def
      f_seek_end_def f_seek_def)

lemma f_read_at:
  "f_read n \<lparr>content = bs, pos = p, reads = rs\<rparr>
    = (take n (drop p bs),
       \<lparr>content = bs, pos = p + length (take n (drop p bs)),
        reads = rs @ [(p, length (take n (drop p bs)))]\<rparr>)"
  by (simp add: f_read_def Let_def)

lemma standard_read_head:
  assumes "start + 4 \<le> length bs"
  shows "standard_read \<lparr>content = bs, pos = start, reads = rs\<rparr> res =
    (let len = unpack_be32 (py_slice bs start (start + 4));
         (compressed, f2) = f_read len \<lparr>content = bs, pos = start + 4, reads = rs @ [(start, 4)]\<rparr>
     in if length compressed < max 0 len
        then (False,
              add_error (''Chunk length '' @ str_nat len @ '' but only read ''
                         @ str_nat (length compressed) @ '' bytes.'') res,
              f2)
        else
          let comp_type = (if length compressed > 0 then Some (unat (compressed ! 0)) else None);
              payload = (if length compressed > 1 then drop 1 compressed else [])
          in (True,
              res\<lparr>found := True, length_field := Some len, compression := comp_type,
                  compressed_bytes := Some payload,
                  raw_sector_data := Some (py_slice bs start (start + 4) @ compressed)\<rparr>,
              f2))"
proof -
  have len4: "length (take 4 (drop start bs)) = 4"
    using assms by simp
  have rd: "f_read 4 \<lparr>content = bs, pos = start, reads = rs\<rparr>
      = (py_slice bs start (start + 4), \<lparr>content = bs, pos = start + 4, reads = rs @ [(start, 4)]\<rparr>)"
    unfolding f_read_at len4 by (simp add: py_slice_def)
  have l4: "length (py_slice bs start (start + 4)) = 4"
    using len4 by (simp add: py_slice_def)
  show ?thesis
    unfolding standard_read_def rd by (simp add: l4 Let_def)
qed

lemma standard_read_zero:
  assumes "start + 4 \<le> length bs"
    and "unpack_be32 (py_slice bs start (start + 4)) = 0"
  shows "standard_read \<lparr>content = bs, pos = start, reads = rs\<rparr> res
    = (True,
       res\<lparr>found := True, length_field := Some 0, compression := None,
           compressed_bytes := Some [], raw_sector_data := Some (py_slice bs start (start + 4))\<rparr>,
       \<lparr>content = bs, pos = start + 4, reads = rs @ [(start, 4), (start + 4, 0)]\<rparr>)"
  unfolding standard_read_head [OF assms(1)] assms(2) f_read_at
  by (simp add: Let_def)

lemma standard_read_short:
  assumes "start + 4 \<le> length bs"
    and "length bs - (start + 4) < unpack_be32 (py_slice bs start (start + 4))"
  shows "standard_read \<lparr>content = bs, pos = start, reads = rs\<rparr> res
    = (False,
       add_error (''Chunk length '' @ str_nat (unpack_be32 (py_slice bs start (start + 4)))
                  @ '' but only read '' @ str_nat (length bs - (start + 4)) @ '' bytes.'') res,
       \<lparr>content = bs, pos = length bs,
        reads = rs @ [(start, 4), (start + 4, length bs - (start + 4))]\<rparr>)"
proof -
  define len where "len = unpack_be32 (py_slice bs start (start + 4))"
  have tk: "take len (drop (start + 4) bs) = drop (start + 4) bs"
    using assms(2) by (simp add: len_def)
  have rd: "f_read len \<lparr>content = bs, pos = start + 4, reads = rs @ [(start, 4)]\<rparr>
      = (drop (start + 4) bs,
         \<lparr>content = bs, pos = length bs,
          reads = rs @ [(start, 4), (start + 4, length bs - (start + 4))]\<rparr>)"
    unfolding f_read_at tk using assms(1) by simp
  show ?thesis
    unfolding standard_read_head [OF assms(1)] len_def [symmetric] Let_def rd
    using assms(2) by (simp add: len_def)
qed

lemma nat_facts: "drop_bit 8 (513::nat) = 2" "(513::nat) AND 0xFF = 1"
  by (simp_all add: drop_bit_eq_div)

lemma zero_length_facts:
  "length zero_length_file = 8196"
  "location_record zero_length_file 0 = 513"
  "py_slice zero_length_file 8192 8196 = [0, 0, 0, 0]"
  by (simp_all add: zero_length_file_def location_record_def py_slice_def unpack_be32_def)

text \<open>
  C10: when the length header is read in full and declares length 0, the extraction
  succeeds: found, declared length 0, no compression tag, empty compressed bytes, and
  a raw sector block that is just the 4 header bytes; no diagnostic is recorded.
\<close>

theorem zero_length_payload_found:
  assumes "fs path = Inr bs" "8192 \<le> length bs"
    and "entry = location_record bs (nat (chunk_index cx cz))"
    and "drop_bit 8 entry \<noteq> 0"
    and "start = drop_bit 8 entry * 4096"
    and "start + 4 \<le> length bs"
    and "unpack_be32 (py_slice bs start (start + 4)) = 0"
  shows "extract_chunk_raw_from_region gz zl fs path cx cz
    = (\<lparr>found = True, errors = [], offset_sector = Some (drop_bit 8 entry),
        sector_count = Some (entry AND 0xFF), length_field = Some 0, compression = None,
        compressed_bytes = Some [], raw_sector_data = Some (py_slice bs start (start + 4)),
        decompressed_bytes = None\<rparr>,
       [(0, 8192), (start, 4), (start + 4, 0)])"
proof -
  from assms(3,4) have ne: "drop_bit 8 (location_record bs (nat (chunk_index cx cz))) \<noteq> 0"
    by simp
  have lt: "\<not> length bs \<le> start" using assms(6) by simp
  show ?thesis
    using assms(1) lt
    by (simp add: extract_chunk_raw_from_region_def extract_body_present [OF assms(2) ne]
        Let_def assms(3,5) [symmetric] standard_read_zero [OF assms(6,7)] res_init_def)
qed

theorem zero_length_payload_found_witness:
  "extract_chunk_raw_from_region never_decompress never_decompress zero_length_fs ''r.0.0.mca'' 0 0
    = (\<lparr>found = True, errors = [], offset_sector = Some 2, sector_count = Some 1,
        length_field = Some 0, compression = None, compressed_bytes = Some [],
        raw_sector_data = Some [0, 0, 0, 0], decompressed_bytes = None\<rparr>,
       [(0, 8192), (8192, 4), (8196, 0)])"
proof -
  have ci: "nat (chunk_index 0 0) = 0" by (simp add: chunk_index_def)
  have fs: "zero_length_fs ''r.0.0.mca'' = Inr zero_length_file"
    by (simp add: zero_length_fs_def)
  have "extract_chunk_raw_from_region never_decompress never_decompress zero_length_fs
      ''r.0.0.mca'' 0 0
    = (\<lparr>found = True, errors = [], offset_sector = Some (drop_bit 8 513),
        sector_count = Some (513 AND 0xFF), length_field = Some 0, compression = None,
        compressed_bytes = Some [],
        raw_sector_data = Some (py_slice zero_length_file 8192 (8192 + 4)),
        decompressed_bytes = None\<rparr>,
       [(0, 8192), (8192, 4), (8192 + 4, 0)])"
    by (rule zero_length_payload_found [where fs = zero_length_fs and path = "''r.0.0.mca''"
          and bs = zero_length_file and entry = 513 and start = 8192])
      (simp_all add: fs ci zero_length_facts nat_facts unpack_be32_def)
  then show ?thesis by (simp add: zero_length_facts nat_facts)
qed

section \<open>Properties of the recovery scan\<close>

lemma zlib_loop_mem: "zlib_loop block offs = Some p \<Longrightarrow> p \<in> set offs"
  by (induction offs) (auto split: if_splits)

lemma scan_candidate_bound:
  assumes "scan_candidate block = Some (p, t)"
  shows "p < length block"
proof (cases "find_bytes [0x1f, 0x8b] block")
  case (Some g)
  from find_bytes_Some [OF Some] have "g + 2 \<le> length block"
    by (simp add: occurs_at_def)
  with assms Some show ?thesis by (simp add: scan_candidate_def)
next
  case None
  with assms obtain z where
    "zlib_loop block [z..<min (z + 32) (length block)] = Some p"
    by (auto simp: scan_candidate_def split: option.splits)
  from zlib_loop_mem [OF this] show ?thesis by simp
qed

lemma recovery_scan_eq:
  "recovery_scan f start =
    (let ss = max start 4096;
         fe = length (content f);
         n = int (min fe (ss + SCAN_LIMIT)) - int ss;
         block = take (if n = - 1 then fe else nat n) (drop ss (content f))
     in if n < - 1
        then (Inl ''read length must be non-negative or -1'', fe, f\<lparr>pos := ss\<rparr>)
        else (Inr (map_option (\<lambda>(p, cand_type). (ss + p, cand_type)) (scan_candidate block)),
              fe,
              f\<lparr>pos := ss + length block, reads := reads f @ [(ss, length block)]\<rparr>))"
proof -
  define ss where "ss = max start 4096"
  define fe where "fe = length (content f)"
  define n where "n = int (min fe (ss + SCAN_LIMIT)) - int ss"
  define block where "block = take (if n = - 1 then fe else nat n) (drop ss (content f))"
  have rd: "f_read_int n (f_seek ss (f\<lparr>pos := fe\<rparr>)) =
      (if n < - 1 then (Inl ''read length must be non-negative or -1'', f\<lparr>pos := ss\<rparr>)
       else (Inr block, f\<lparr>pos := ss + length block, reads := reads f @ [(ss, length block)]\<rparr>))"
    by (simp add: f_read_int_def f_read_def f_seek_def Let_def block_def fe_def)
  have "recovery_scan f start =
      (case f_read_int n (f_seek ss (f\<lparr>pos := fe\<rparr>)) of
         (r, f2) \<Rightarrow>
           (case r of
              Inl e \<Rightarrow> (Inl e, fe, f2)
            | Inr block \<Rightarrow>
                (case scan_candidate block of
                   None \<Rightarrow> (Inr None, fe, f2)
                 | Some (p, cand_type) \<Rightarrow> (Inr (Some (ss + p, cand_type)), fe, f2))))"
    unfolding recovery_scan_def f_seek_end_def Let_def prod.case
      ss_def [symmetric] fe_def [symmetric] n_def [symmetric] ..
  also have "\<dots> =
      (if n < - 1
       then (Inl ''read length must be non-negative or -1'', fe, f\<lparr>pos := ss\<rparr>)
       else (Inr (map_option (\<lambda>(p, cand_type). (ss + p, cand_type)) (scan_candidate block)),
             fe,
             f\<lparr>pos := ss + length block, reads := reads f @ [(ss, length block)]\<rparr>))"
    unfolding rd by (simp split: option.split)
  finally show ?thesis
    unfolding Let_def ss_def [symmetric] fe_def [symmetric] n_def [symmetric]
      block_def [symmetric] .
qed

lemma window_block_length:
  fixes ss fe lim :: nat
  assumes "- 1 \<le> int (min fe (ss + lim)) - int ss" "length bs = fe"
    and "block = take (if int (min fe (ss + lim)) - int ss = - 1 then fe
                       else nat (int (min fe (ss + lim)) - int ss)) (drop ss bs)"
  shows "length block = 0 \<or> ss + length block \<le> min fe (ss + lim)"
proof (cases "int (min fe (ss + lim)) - int ss = - 1")
  case True
  then have "fe < ss" by (simp add: min_def split: if_splits)
  with assms(2,3) show ?thesis by simp
next
  case False
  with assms(1) have "0 \<le> int (min fe (ss + lim)) - int ss" by linarith
  then have le: "ss \<le> min fe (ss + lim)" by linarith
  have "length block \<le> nat (int (min fe (ss + lim)) - int ss)"
    using assms(3) False by simp
  also have "\<dots> = min fe (ss + lim) - ss" using le by linarith
  finally show ?thesis using le by linarith
qed

text \<open>
  C5: a candidate of the recovery scan is never before \<open>max(start, 4096)\<close> and lies
  before \<open>min(file_size, scan_start + 4 MiB)\<close>; the scan makes at most one read, which
  starts at \<open>max(start, 4096)\<close> and returns no byte at or after that bound.
\<close>

theorem recovery_scan_window:
  assumes "recovery_scan f start = (r, file_end, f')"
  shows "(\<forall>c t. r = Inr (Some (c, t)) \<longrightarrow>
            max start 4096 \<le> c
            \<and> c < min (length (content f)) (max start 4096 + SCAN_LIMIT))
    \<and> (reads f' = reads f
        \<or> (\<exists>n. reads f' = reads f @ [(max start 4096, n)]
              \<and> (n = 0 \<or> max start 4096 + n
                             \<le> min (length (content f)) (max start 4096 + SCAN_LIMIT))))"
proof -
  define ss where "ss = max start 4096"
  define fe where "fe = length (content f)"
  define n where "n = int (min fe (ss + SCAN_LIMIT)) - int ss"
  define block where "block = take (if n = - 1 then fe else nat n) (drop ss (content f))"
  have eq: "recovery_scan f start =
      (if n < - 1
       then (Inl ''read length must be non-negative or -1'', fe, f\<lparr>pos := ss\<rparr>)
       else (Inr (map_option (\<lambda>(p, cand_type). (ss + p, cand_type)) (scan_candidate block)),
             fe,
             f\<lparr>pos := ss + length block, reads := reads f @ [(ss, length block)]\<rparr>))"
    unfolding recovery_scan_eq Let_def ss_def [symmetric] fe_def [symmetric] n_def [symmetric]
      block_def [symmetric] ..
  show ?thesis
  proof (cases "n < - 1")
    case True
    with assms eq have "r = Inl ''read length must be non-negative or -1''" "f' = f\<lparr>pos := ss\<rparr>"
      by simp_all
    then show ?thesis by simp
  next
    case False
    from False have n1: "- 1 \<le> n" by simp
    have len: "length block = 0 \<or> ss + length block \<le> min fe (ss + SCAN_LIMIT)"
      using window_block_length [of fe ss SCAN_LIMIT "content f" block] n1
      unfolding n_def fe_def block_def by blast
    from assms False eq have res:
      "r = Inr (map_option (\<lambda>(p, cand_type). (ss + p, cand_type)) (scan_candidate block))"
      "f' = f\<lparr>pos := ss + length block, reads := reads f @ [(ss, length block)]\<rparr>"
      by simp_all
    then have rd: "reads f' = reads f @ [(ss, length block)]"
      by simp
    have cand: "ss \<le> c \<and> c < min fe (ss + SCAN_LIMIT)" if "r = Inr (Some (c, t))" for c t
    proof -
      from res(1) that
      have "map_option (\<lambda>(p, cand_type). (ss + p, cand_type)) (scan_candidate block) = Some (c, t)"
        by simp
      then obtain p where p: "scan_candidate block = Some (p, t)" "c = ss + p"
        by (cases "scan_candidate block") auto
      from scan_candidate_bound [OF p(1)] have "p < length block" .
      with len p(2) show ?thesis by auto
    qed
    from rd len cand show ?thesis
      unfolding ss_def [symmetric] fe_def [symmetric] by blast
  qed
qed

theorem recovery_scan_window_witness:
  "fst (recovery_scan gzip_in_sector_one 0) = Inr (Some (4096, Gzip))
   \<and> max 0 4096 \<le> (4096 :: nat)
   \<and> (4096 :: nat) < min (length (content gzip_in_sector_one)) (max 0 4096 + SCAN_LIMIT)"
proof -
  have sc: "scan_candidate [0x1f, 0x8b] = Some (0, Gzip)"
    by (simp add: scan_candidate_def)
  have ev: "recovery_scan gzip_in_sector_one 0
    = (Inr (Some (4096, Gzip)), 4098,
       \<lparr>content = replicate 4096 0 @ [0x1f, 0x8b], pos = 4098, reads = [(4096, 2)]\<rparr>)"
    by (simp add: recovery_scan_eq Let_def gzip_in_sector_one_def SCAN_LIMIT_def sc)
  from recovery_scan_window [OF ev] ev show ?thesis by simp
qed

lemma recovery_result:
  assumes "recovery gz zl f start res = (x, r, f')"
  shows "raw_sector_data r = raw_sector_data res \<and> length_field r = length_field res
    \<and> offset_sector r = offset_sector res \<and> sector_count r = sector_count res
    \<and> (\<exists>es. errors r = errors res @ es)
    \<and> (found r = found res \<and> compressed_bytes r = compressed_bytes res
          \<and> decompressed_bytes r = decompressed_bytes res
        \<or> found r \<and> (\<exists>tail d. compressed_bytes r = Some tail \<and> decompressed_bytes r = Some d))"
  using assms
  by (auto simp: recovery_def add_error_def Let_def
      split: prod.splits sum.splits option.splits if_splits)

lemma extract_short_payload:
  assumes "fs path = Inr bs" "8192 \<le> length bs"
    and "entry = location_record bs (nat (chunk_index cx cz))"
    and "drop_bit 8 entry \<noteq> 0"
    and "start = drop_bit 8 entry * 4096"
    and "start + 4 \<le> length bs"
    and "len = unpack_be32 (py_slice bs start (start + 4))"
    and "length bs - (start + 4) < len"
  shows "extract_chunk_raw_from_region gz zl fs path cx cz =
    (case recovery gz zl
            \<lparr>content = bs, pos = length bs,
             reads = [(0, 8192), (start, 4), (start + 4, length bs - (start + 4))]\<rparr>
            start
            (add_error (''Chunk length '' @ str_nat len @ '' but only read ''
                        @ str_nat (length bs - (start + 4)) @ '' bytes.'')
               (res_init\<lparr>offset_sector := Some (drop_bit 8 entry),
                  sector_count := Some (entry AND 0xFF)\<rparr>)) of
       (None, res, f) \<Rightarrow> (res, reads f)
     | (Some e, res, f) \<Rightarrow> (add_error (''IO error opening region: '' @ e) res, reads f))"
proof -
  from assms(3,4) have ne: "drop_bit 8 (location_record bs (nat (chunk_index cx cz))) \<noteq> 0"
    by simp
  have lt: "\<not> length bs \<le> start" using assms(6) by simp
  from assms(7,8) have short: "length bs - (start + 4) < unpack_be32 (py_slice bs start (start + 4))"
    by simp
  show ?thesis
    using assms(1) lt
    by (simp add: extract_chunk_raw_from_region_def extract_body_present [OF assms(2) ne]
        Let_def assms(3,5) [symmetric] standard_read_short [OF assms(6) short]
        assms(7) [symmetric])
qed

lemma fixture_facts:
  "length short_payload_file = 8197"
  "location_record short_payload_file 0 = 513"
  "py_slice short_payload_file 8192 8196 = [0, 0, 0, 10]"
  "drop 8192 short_payload_file = [0, 0, 0, 10, 2]"
  by (simp_all add: short_payload_file_def location_record_def py_slice_def unpack_be32_def)

lemma str_facts: "str_nat 10 = ''10''" "str_nat 1 = ''1''" "str_nat (Suc 0) = ''1''"
  by (simp_all add: str_nat.simps)

lemma recovery_fixture:
  "recovery never_decompress never_decompress
     \<lparr>content = short_payload_file, pos = p, reads = rs\<rparr> 8192 res
   = (None, add_error ''No gzip/zlib header found during scan.'' res,
      \<lparr>content = short_payload_file, pos = 8197, reads = rs @ [(8192, 5)]\<rparr>)"
proof -
  have sc: "scan_candidate [0, 0, 0, 10, 2] = None"
    by (simp add: scan_candidate_def)
  have "recovery_scan \<lparr>content = short_payload_file, pos = p, reads = rs\<rparr> 8192
    = (Inr None, 8197,
       \<lparr>content = short_payload_file, pos = 8197, reads = rs @ [(8192, 5)]\<rparr>)"
    by (simp add: recovery_scan_eq Let_def fixture_facts SCAN_LIMIT_def sc)
  then show ?thesis by (simp add: recovery_def)
qed

text \<open>
  C3, as stated, fails: in \<open>short_payload_file\<close> entry 0 declares 10 bytes and 1 byte is
  read; the diagnostic holds both counts, but the result keeps neither the byte read nor
  the raw block, and nothing is found.
\<close>

theorem short_payload_not_retained_counterexample:
  "extract_chunk_raw_from_region never_decompress never_decompress short_payload_fs ''r.0.0.mca'' 0 0
     = (\<lparr>found = False,
         errors = [''Chunk length 10 but only read 1 bytes.'',
                   ''No gzip/zlib header found during scan.''],
         offset_sector = Some 2, sector_count = Some 1, length_field = None,
         compression = None, compressed_bytes = None, raw_sector_data = None,
         decompressed_bytes = None\<rparr>,
        [(0, 8192), (8192, 4), (8196, 1), (8192, 5)])"
proof -
  have ci: "nat (chunk_index 0 0) = 0" by (simp add: chunk_index_def)
  have fs: "short_payload_fs ''r.0.0.mca'' = Inr short_payload_file"
    by (simp add: short_payload_fs_def)
  have ex: "extract_chunk_raw_from_region never_decompress never_decompress short_payload_fs
      ''r.0.0.mca'' 0 0 =
    (case recovery never_decompress never_decompress
            \<lparr>content = short_payload_file, pos = length short_payload_file,
             reads = [(0, 8192), (8192, 4), (8192 + 4, length short_payload_file - (8192 + 4))]\<rparr>
            8192
            (add_error (''Chunk length '' @ str_nat 10 @ '' but only read ''
                        @ str_nat (length short_payload_file - (8192 + 4)) @ '' bytes.'')
               (res_init\<lparr>offset_sector := Some (drop_bit 8 513),
                  sector_count := Some (513 AND 0xFF)\<rparr>)) of
       (None, res, f) \<Rightarrow> (res, reads f)
     | (Some e, res, f) \<Rightarrow> (add_error (''IO error opening region: '' @ e) res, reads f))"
    by (rule extract_short_payload [where fs = short_payload_fs and path = "''r.0.0.mca''"
          and bs = short_payload_file and entry = 513 and start = 8192 and len = 10])
      (simp_all add: fs ci fixture_facts nat_facts unpack_be32_def)
  show ?thesis
    unfolding ex
    by (simp add: fixture_facts nat_facts str_facts recovery_fixture add_error_def res_init_def)
qed

text \<open>
  C3, amended: when the length header is read in full and fewer bytes than it declares
  follow, the first diagnostic is \<open>Chunk length L but only read A bytes.\<close> with both
  counts; the bytes read are not kept: the result holds no raw sector block and no
  declared length, and it is the result of the recovery scan run on the file with only
  that diagnostic carried over, so compressed bytes are present only when the scan found a
  candidate that decompressed.
\<close>

theorem short_payload_diagnosed:
  assumes "fs path = Inr bs" "8192 \<le> length bs"
    and "entry = location_record bs (nat (chunk_index cx cz))"
    and "drop_bit 8 entry \<noteq> 0"
    and "start = drop_bit 8 entry * 4096"
    and "start + 4 \<le> length bs"
    and "len = unpack_be32 (py_slice bs start (start + 4))"
    and "length bs - (start + 4) < len"
    and "r = fst (extract_chunk_raw_from_region gz zl fs path cx cz)"
  shows "(\<exists>rest. errors r = (''Chunk length '' @ str_nat len @ '' but only read ''
                              @ str_nat (length bs - (start + 4)) @ '' bytes.'') # rest)
    \<and> raw_sector_data r = None \<and> length_field r = None
    \<and> (\<not> found r \<and> compressed_bytes r = None \<and> decompressed_bytes r = None
        \<or> found r \<and> (\<exists>tail d. compressed_bytes r = Some tail \<and> decompressed_bytes r = Some d))
    \<and> r = (case recovery gz zl
                   \<lparr>content = bs, pos = length bs,
                    reads = [(0, 8192), (start, 4), (start + 4, length bs - (start + 4))]\<rparr>
                   start
                   (add_error (''Chunk length '' @ str_nat len @ '' but only read ''
                               @ str_nat (length bs - (start + 4)) @ '' bytes.'')
                      (res_init\<lparr>offset_sector := Some (drop_bit 8 entry),
                         sector_count := Some (entry AND 0xFF)\<rparr>)) of
              (None, res, f) \<Rightarrow> res
            | (Some e, res, f) \<Rightarrow> add_error (''IO error opening region: '' @ e) res)"
proof -
  define msg where "msg = ''Chunk length '' @ str_nat len @ '' but only read ''
      @ str_nat (length bs - (start + 4)) @ '' bytes.''"
  define res0 where "res0 = add_error msg
      (res_init\<lparr>offset_sector := Some (drop_bit 8 entry), sector_count := Some (entry AND 0xFF)\<rparr>)"
  define fh where "fh = \<lparr>content = bs, pos = length bs,
      reads = [(0, 8192), (start, 4), (start + 4, length bs - (start + 4))]\<rparr>"
  obtain x r' f' where rec: "recovery gz zl fh start res0 = (x, r', f')"
    by (cases "recovery gz zl fh start res0") auto
  have ex: "extract_chunk_raw_from_region gz zl fs path cx cz =
      (case recovery gz zl fh start res0 of
         (None, res, f) \<Rightarrow> (res, reads f)
       | (Some e, res, f) \<Rightarrow> (add_error (''IO error opening region: '' @ e) res, reads f))"
    unfolding fh_def res0_def msg_def
    by (rule extract_short_payload [where fs = fs and path = path and bs = bs
          and entry = entry and start = start and len = len, OF assms(1-8)])
  have r: "r = (case x of None \<Rightarrow> r' | Some e \<Rightarrow> add_error (''IO error opening region: '' @ e) r')"
    unfolding assms(9) ex rec by (cases x) simp_all
  have init: "errors res0 = [msg]" "raw_sector_data res0 = None" "length_field res0 = None"
    "\<not> found res0" "compressed_bytes res0 = None" "decompressed_bytes res0 = None"
    by (simp_all add: res0_def add_error_def res_init_def)
  from recovery_result [OF rec] init have r':
    "raw_sector_data r' = None" "length_field r' = None" "\<exists>es. errors r' = msg # es"
    "\<not> found r' \<and> compressed_bytes r' = None \<and> decompressed_bytes r' = None
      \<or> found r' \<and> (\<exists>tail d. compressed_bytes r' = Some tail \<and> decompressed_bytes r' = Some d)"
    by auto
  have props: "(\<exists>rest. errors r = msg # rest) \<and> raw_sector_data r = None \<and> length_field r = None
    \<and> (\<not> found r \<and> compressed_bytes r = None \<and> decompressed_bytes r = None
        \<or> found r \<and> (\<exists>tail d. compressed_bytes r = Some tail \<and> decompressed_bytes r = Some d))"
    using r' unfolding r by (cases x) (auto simp: add_error_def)
  have eq: "r = (case recovery gz zl fh start res0 of
              (None, res, f) \<Rightarrow> res
            | (Some e, res, f) \<Rightarrow> add_error (''IO error opening region: '' @ e) res)"
    unfolding r rec by (cases x) simp_all
  from props eq show ?thesis
    unfolding fh_def res0_def msg_def by blast
qed

theorem short_payload_diagnosed_witness:
  "(\<exists>rest. errors (fst (extract_chunk_raw_from_region never_decompress never_decompress
              short_payload_fs ''r.0.0.mca'' 0 0))
        = ''Chunk length 10 but only read 1 bytes.'' # rest)
   \<and> raw_sector_data (fst (extract_chunk_raw_from_region never_decompress never_decompress
              short_payload_fs ''r.0.0.mca'' 0 0)) = None
   \<and> length_field (fst (extract_chunk_raw_from_region never_decompress never_decompress
              short_payload_fs ''r.0.0.mca'' 0 0)) = None"
proof -
  have ci: "nat (chunk_index 0 0) = 0" by (simp add: chunk_index_def)
  have fs: "short_payload_fs ''r.0.0.mca'' = Inr short_payload_file"
    by (simp add: short_payload_fs_def)
  have h2: "8192 \<le> length short_payload_file" by (simp add: fixture_facts)
  have h3: "513 = location_record short_payload_file (nat (chunk_index 0 0))"
    by (simp add: ci fixture_facts)
  have h4: "drop_bit 8 (513 :: nat) \<noteq> 0" by (simp add: nat_facts)
  have h5: "(8192 :: nat) = drop_bit 8 513 * 4096" by (simp add: nat_facts)
  have h6: "8192 + 4 \<le> length short_payload_file" by (simp add: fixture_facts)
  have h7: "10 = unpack_be32 (py_slice short_payload_file 8192 (8192 + 4))"
    by (simp add: fixture_facts unpack_be32_def)
  have h8: "length short_payload_file - (8192 + 4) < 10" by (simp add: fixture_facts)
  note run = short_payload_diagnosed [where fs = short_payload_fs and path = "''r.0.0.mca''"
      and bs = short_payload_file and entry = 513 and start = 8192 and len = 10
      and cx = 0 and cz = 0 and gz = never_decompress and zl = never_decompress,
      OF fs h2 h3 h4 h5 h6 h7 h8 refl]
  from run have e: "\<exists>rest. errors (fst (extract_chunk_raw_from_region never_decompress
        never_decompress short_payload_fs ''r.0.0.mca'' 0 0))
      = (''Chunk length '' @ str_nat 10 @ '' but only read ''
         @ str_nat (length short_payload_file - (8192 + 4)) @ '' bytes.'') # rest"
    by (rule conjunct1)
  from run have rs: "raw_sector_data (fst (extract_chunk_raw_from_region never_decompress
        never_decompress short_payload_fs ''r.0.0.mca'' 0 0)) = None"
    by (rule conjunct1 [OF conjunct2])
  from run have lf: "length_field (fst (extract_chunk_raw_from_region never_decompress
        never_decompress short_payload_fs ''r.0.0.mca'' 0 0)) = None"
    by (rule conjunct1 [OF conjunct2 [OF conjunct2]])
  have msg: "''Chunk length '' @ str_nat 10 @ '' but only read ''
         @ str_nat (length short_payload_file - (8192 + 4)) @ '' bytes.''
      = ''Chunk length 10 but only read 1 bytes.''"
    by (simp add: fixture_facts str_facts)
  from e rs lf show ?thesis unfolding msg by blast
qed

end
